theory Spec2Isabelle
  imports Main "HOL-Library.Char_ord" "HOL-Library.List_Lexorder"
begin

section \<open>The UHD logging core (host/lib/utils/log.cpp)\<close>

subsection \<open>Severity scale and log records\<close>

text \<open>
  Modelled from the spec: the enumeration \<open>uhd::log::severity_level\<close> is declared in
  \<open>uhd/utils/log.hpp\<close>, which is not among the sources. The spec gives it as the
  ordered enumeration trace, debug, info, warning, error, fatal, off, compared
  numerically on the ordinal position; log.cpp uses exactly these seven enumerators.
\<close>

datatype severity_level = trace | debug | info | warning | error | fatal | off

text \<open>
  Modelled from the spec: the ordinal position of an enumerator, on which the levels
  are compared (\<open>a >= b\<close> in the source is \<open>ordinal b \<le> ordinal a\<close>).
\<close>

fun ordinal :: "severity_level \<Rightarrow> int" where
  "ordinal trace = 0"
| "ordinal debug = 1"
| "ordinal info = 2"
| "ordinal warning = 3"
| "ordinal error = 4"
| "ordinal fatal = 5"
| "ordinal off = 6"

text \<open>
  \<open>boost::posix_time::ptime\<close> and \<open>boost::thread::id\<close> are opaque to log.cpp: it only
  stores them and streams them through formatting functions of Boost. They are
  modelled as numbers (a tick count, an identifier); the formatting functions are
  parameters of the sinks below.
\<close>

type_synonym ptime = nat
type_synonym thread_id_t = nat

text \<open>
  The struct \<open>uhd::log::logging_info\<close>, with the fields log.cpp reads and writes.
  \<open>line\<close> is an \<open>unsigned int\<close>; no arithmetic is done on it.
\<close>

record logging_info =
  time :: ptime
  verbosity :: severity_level
  "file" :: string
  line :: nat
  component :: string
  thread_id :: thread_id_t
  message :: string

subsection \<open>std::map with string keys\<close>

text \<open>
  A \<open>std::map<std::string, V>\<close> is a list of entries kept in strictly ascending key
  order (the order in which a range-for visits it); \<open>std::string\<close> compares
  lexicographically by unsigned character code, which is the order of
  \<open>char list\<close> here. \<open>map_find\<close> is \<open>find\<close> (\<open>None\<close> for \<open>end()\<close>),
  \<open>map_assign\<close> is \<open>m[k] = v\<close>.
\<close>

type_synonym ('k, 'v) std_map = "('k \<times> 'v) list"

definition map_find :: "('k, 'v) std_map \<Rightarrow> 'k \<Rightarrow> 'v option" where
  "map_find m k = map_of m k"

fun map_assign :: "('k::linorder, 'v) std_map \<Rightarrow> 'k \<Rightarrow> 'v \<Rightarrow> ('k, 'v) std_map" where
  "map_assign [] k v = [(k, v)]"
| "map_assign ((k', v') # m) k v =
     (if k < k' then (k, v) # (k', v') # m
      else if k = k' then (k, v) # m
      else (k', v') # map_assign m k v)"

definition std_map_inv :: "('k::linorder, 'v) std_map \<Rightarrow> bool" where
  "std_map_inv m = sorted_wrt (<) (map fst m)"

subsection \<open>Bounded queue\<close>

text \<open>
  Modelled from the spec: \<open>uhd::transport::bounded_buffer\<close>
  (\<open>uhd/transport/bounded_buffer.hpp\<close>) is not among the sources. The spec describes a
  fixed-capacity first-in first-out queue whose non-blocking push, when the queue is
  at capacity, either drops the incoming record or evicts the oldest one; it leaves
  the choice open, so the policy is a parameter. The head of the list is the oldest
  record. \<open>pop_with_haste\<close> returns at once, with the oldest record when there is one;
  \<open>pop_with_timed_wait\<close> is the same once its wait is over.
\<close>

datatype overflow_policy = drop_newest | evict_oldest

text \<open>
  Modelled from the spec: the state of a \<open>bounded_buffer\<close>, its fixed capacity and the
  records it holds, oldest first.
\<close>

record 'a bounded_buffer =
  capacity :: nat
  buffer :: "'a list"

text \<open>Modelled from the spec: a new \<open>bounded_buffer\<close> of the given capacity is empty.\<close>

definition bounded_buffer_ctor :: "nat \<Rightarrow> 'a bounded_buffer" where
  "bounded_buffer_ctor n = \<lparr>capacity = n, buffer = []\<rparr>"

text \<open>
  Modelled from the spec: the non-blocking push of \<open>bounded_buffer\<close>. Below capacity
  the record is appended; at capacity the policy decides.
\<close>

definition push_with_haste ::
  "overflow_policy \<Rightarrow> 'a bounded_buffer \<Rightarrow> 'a \<Rightarrow> 'a bounded_buffer" where
  "push_with_haste pol q x =
     (if length (buffer q) < capacity q then q\<lparr>buffer := buffer q @ [x]\<rparr>
      else case pol of
        drop_newest \<Rightarrow> q
      | evict_oldest \<Rightarrow> q\<lparr>buffer := tl (buffer q) @ [x]\<rparr>)"


subsection \<open>Exceptions\<close>

text \<open>
  The ways control leaves a function of log.cpp without returning: the two exceptions
  of \<open>std::stoi\<close>; the \<open>std::ios_base::failure\<close> of a stream whose exception mask is
  set; an exception of a callable a user registered as a sink; and \<open>recursive_init\<close>,
  the entry into \<open>log_rs()\<close> while the singleton it holds is still being constructed,
  from which control does not come back to the constructor.
\<close>

datatype exn = invalid_argument | out_of_range | failure | user_exception | recursive_init

subsection \<open>The log resource\<close>

text \<open>
  A sink is a \<open>log_fn_t\<close>, a callable taking a record. The two built-in sinks are the
  function \<open>console_log\<close> and the closure over the file backend; \<open>'f\<close> stands for the
  callables a user registers.
\<close>

datatype 'f log_fn_t = console_log_fn | file_log_fn | user_fn 'f

text \<open>
  The members of class \<open>log_resource\<close>; \<open>exit\<close>, \<open>loggers\<close> and \<open>log_queue\<close> are
  \<open>_exit\<close>, \<open>_loggers\<close> and \<open>_log_queue\<close> of the source.
\<close>

record 'f log_resource =
  global_level :: severity_level
  logger_level :: "(string, severity_level) std_map"
  exit :: bool
  loggers :: "(string, 'f log_fn_t) std_map"
  log_queue :: "logging_info bounded_buffer"

definition push :: "overflow_policy \<Rightarrow> 'f log_resource \<Rightarrow> logging_info \<Rightarrow> 'f log_resource" where
  "push pol rs log_info = rs\<lparr>log_queue := push_with_haste pol (log_queue rs) log_info\<rparr>"

definition add_logger :: "'f log_resource \<Rightarrow> string \<Rightarrow> 'f log_fn_t \<Rightarrow> 'f log_resource" where
  "add_logger rs key logger_fn = rs\<lparr>loggers := map_assign (loggers rs) key logger_fn\<rparr>"

definition set_log_level :: "'f log_resource \<Rightarrow> severity_level \<Rightarrow> 'f log_resource" where
  "set_log_level rs level = rs\<lparr>global_level := level\<rparr>"

definition set_logger_level ::
  "'f log_resource \<Rightarrow> string \<Rightarrow> severity_level \<Rightarrow> 'f log_resource" where
  "set_logger_level rs key level = rs\<lparr>logger_level := map_assign (logger_level rs) key level\<rparr>"

subsection \<open>The consumer\<close>

text \<open>
  Calling a sink has effects and may throw. \<open>'w\<close> is the state of everything the sinks
  write to; a call of a callable on a record in a state gives the new state when the
  call returns and the exception when it throws. What the callables do is a
  parameter of the consumer; \<open>builtin_sinks\<close> below gives it for the two sinks of
  log.cpp.
\<close>

type_synonym ('f, 'w) sink_semantics = "'f log_fn_t \<Rightarrow> logging_info \<Rightarrow> 'w \<Rightarrow> exn + 'w"

text \<open>
  A call of a sink on a record is an event: the key it is registered under, the
  callable, and the record. The body of both loops of \<open>pop_task\<close> is the same
  range-for over \<open>_loggers\<close>: look the key up in \<open>logger_level\<close>, skip the sink when
  an entry exists and the record's severity is below it, call the sink otherwise.
  There is no handler around the call: an exception of a sink ends the range-for, and
  the sinks after it are not called. The result is the calls made, the last of which
  is the one that threw when one did, and the state of the sinks or the exception.
\<close>

type_synonym 'f sink_call = "string \<times> 'f log_fn_t \<times> logging_info"

fun dispatch ::
  "('f, 'w) sink_semantics \<Rightarrow> (string, 'f log_fn_t) std_map \<Rightarrow>
   (string, severity_level) std_map \<Rightarrow> logging_info \<Rightarrow> 'w \<Rightarrow> 'f sink_call list \<times> (exn + 'w)" where
  "dispatch sinks [] lv log_info w = ([], Inr w)"
| "dispatch sinks ((key, logger_fn) # ls) lv log_info w =
     (if (case map_find lv key of
            Some level \<Rightarrow> ordinal (verbosity log_info) < ordinal level
          | None \<Rightarrow> False)
      then dispatch sinks ls lv log_info w
      else
        (case sinks logger_fn log_info w of
           Inl e \<Rightarrow> ([(key, logger_fn, log_info)], Inl e)
         | Inr w' \<Rightarrow>
             (case dispatch sinks ls lv log_info w' of
                (cs, out) \<Rightarrow> ((key, logger_fn, log_info) # cs, out))))"








subsection \<open>The log statement\<close>

text \<open>
  The class \<open>uhd::_log::log\<close>: its members \<open>_log_info\<close>, \<open>_ss\<close> and \<open>_log_it\<close>. A
  default-constructed \<open>logging_info\<close> stands in \<open>_log_info\<close> when the statement is
  filtered; its constructor is in the header, and the code never reads that value,
  so the model fixes it to empty fields.
\<close>

record log =
  log_info :: logging_info
  ss :: string
  log_it :: bool

definition logging_info_default :: logging_info where
  "logging_info_default =
     \<lparr>time = 0, verbosity = off, file = [], line = 0, component = [], thread_id = 0,
      message = []\<rparr>"

text \<open>
  The constructor reads the global level of the singleton once; \<open>now\<close> is the value
  of \<open>microsec_clock::local_time()\<close>.
\<close>

definition log_ctor ::
  "'f log_resource \<Rightarrow> ptime \<Rightarrow> severity_level \<Rightarrow> string \<Rightarrow> nat \<Rightarrow> string \<Rightarrow> thread_id_t \<Rightarrow> log" where
  "log_ctor rs now v f l c t =
     (if ordinal (global_level rs) \<le> ordinal v
      then \<lparr>log_info = \<lparr>time = now, verbosity = v, file = f, line = l, component = c,
                        thread_id = t, message = []\<rparr>,
            ss = [], log_it = True\<rparr>
      else \<lparr>log_info = logging_info_default, ss = [], log_it = False\<rparr>)"

text \<open>
  Modelled from the spec: the streaming operator of the statement is defined in
  \<open>uhd/utils/log.hpp\<close>, which is not among the sources. The spec: a message
  fragment is accumulated, and its content is discarded when the cached check is
  false.
\<close>

definition shift :: "log \<Rightarrow> string \<Rightarrow> log" where
  "shift l x = (if log_it l then l\<lparr>ss := ss l @ x\<rparr> else l)"

definition log_dtor :: "overflow_policy \<Rightarrow> log \<Rightarrow> 'f log_resource \<Rightarrow> 'f log_resource" where
  "log_dtor pol l rs =
     (if log_it l then push pol rs ((log_info l)\<lparr>message := ss l\<rparr>) else rs)"

subsection \<open>Parsing a level\<close>

text \<open>
  \<open>std::isdigit\<close> in the "C" locale. \<open>std::stoi\<close> is modelled on the strings its one
  call site passes, whose first character is a digit: it converts the longest
  prefix of decimal digits, ignores what follows, and throws \<open>std::out_of_range\<close>
  when the number does not fit an \<open>int\<close> (32 bits on the platforms UHD builds for).
  Without a leading digit it throws \<open>std::invalid_argument\<close>; white space and signs,
  which the call site cannot pass, are not modelled.
\<close>

definition isdigit :: "char \<Rightarrow> bool" where
  "isdigit c = (c \<in> set ''0123456789'')"

definition digit_value :: "char \<Rightarrow> int" where
  "digit_value c = int (of_char c) - 48"

definition INT_MAX :: int where
  "INT_MAX = 2147483647"

definition decimal_value :: "string \<Rightarrow> int" where
  "decimal_value ds = foldl (\<lambda>a c. 10 * a + digit_value c) 0 ds"

definition stoi :: "string \<Rightarrow> exn + int" where
  "stoi s =
     (let ds = takeWhile isdigit s; n = decimal_value ds
      in if ds = [] then Inl invalid_argument
         else if INT_MAX < n then Inl out_of_range
         else Inr n)"

text \<open>
  The cast \<open>severity_level(int)\<close> followed by the range check
  \<open>trace <= n <= fatal\<close>: the enumerator with that ordinal, when there is one.
\<close>

definition level_of_int :: "int \<Rightarrow> severity_level option" where
  "level_of_int n =
     (if n = 0 then Some trace else if n = 1 then Some debug else if n = 2 then Some info
      else if n = 3 then Some warning else if n = 4 then Some error
      else if n = 5 then Some fatal else None)"

text \<open>
  \<open>_get_log_level\<close>. The result is the level returned and the messages of the
  statements issued through \<open>UHD_LOGGER_ERROR("LOG")\<close>; an exception thrown by
  \<open>std::stoi\<close> is not caught and leaves the function. \<open>log_level_str[0]\<close> of the
  empty string is the terminating zero, which is no digit.
\<close>

definition get_log_level :: "string \<Rightarrow> severity_level \<Rightarrow> exn + (severity_level \<times> string list)" where
  "get_log_level log_level_str previous_level =
     (if (case log_level_str of [] \<Rightarrow> False | c # _ \<Rightarrow> isdigit c) then
        (case stoi log_level_str of
           Inl e \<Rightarrow> Inl e
         | Inr log_level_num \<Rightarrow>
             (case level_of_int log_level_num of
                Some level \<Rightarrow> Inr (level, [])
              | None \<Rightarrow>
                  Inr (previous_level, [''Failed to set log level to: '' @ log_level_str])))
      else if log_level_str = ''trace'' then Inr (trace, [])
      else if log_level_str = ''debug'' then Inr (debug, [])
      else if log_level_str = ''info'' then Inr (info, [])
      else if log_level_str = ''warning'' then Inr (warning, [])
      else if log_level_str = ''error'' then Inr (error, [])
      else if log_level_str = ''fatal'' then Inr (fatal, [])
      else if log_level_str = ''off'' then Inr (off, [])
      else Inr (previous_level, []))"

subsection \<open>Sinks\<close>

text \<open>
  The formatting functions of Boost for the time stamp and the thread identifier are
  parameters of the sinks.
\<close>

record formatters =
  to_simple_string :: "ptime \<Rightarrow> string"
  thread_id_string :: "thread_id_t \<Rightarrow> string"

text \<open>
  Modelled from the spec: the stream operator for \<open>severity_level\<close> is declared in
  \<open>uhd/utils/log.hpp\<close>, which is not among the sources. The spec has both sinks write
  the severity name, which is the enumerator's identifier.
\<close>

fun severity_name :: "severity_level \<Rightarrow> string" where
  "severity_name trace = ''trace''"
| "severity_name debug = ''debug''"
| "severity_name info = ''info''"
| "severity_name warning = ''warning''"
| "severity_name error = ''error''"
| "severity_name fatal = ''fatal''"
| "severity_name off = ''off''"

text \<open>An \<open>unsigned int\<close> is streamed in decimal.\<close>

definition digit_char :: "nat \<Rightarrow> char" where
  "digit_char d = ''0123456789'' ! d"

fun decimal :: "nat \<Rightarrow> string" where
  "decimal n = (if n < 10 then [digit_char n] else decimal (n div 10) @ [digit_char (n mod 10)])"

declare decimal.simps [simp del]

definition endl :: string where
  "endl = [CHR 0x0A]"

definition ESC :: char where
  "ESC = CHR 0x1B"

definition PURPLE :: string where "PURPLE = ESC # ''[35;1m''"
definition BLUE :: string where "BLUE = ESC # ''[34;1m''"
definition GREEN :: string where "GREEN = ESC # ''[32;1m''"
definition YELLOW :: string where "YELLOW = ESC # ''[33;1m''"
definition RED :: string where "RED = ESC # ''[31;0m''"
definition BRED :: string where "BRED = ESC # ''[31;1m''"
definition RESET_COLORS :: string where "RESET_COLORS = ESC # ''[39;0m''"

fun verbosity_color :: "severity_level \<Rightarrow> string" where
  "verbosity_color trace = PURPLE"
| "verbosity_color debug = BLUE"
| "verbosity_color info = GREEN"
| "verbosity_color warning = YELLOW"
| "verbosity_color error = RED"
| "verbosity_color fatal = BRED"
| "verbosity_color off = RESET_COLORS"

text \<open>
  \<open>path.find_last_of("/\\")\<close> is the last index holding a slash or a backslash, or
  \<open>npos\<close> (here \<open>None\<close>); \<open>npos + 1\<close> wraps around to 0, so \<open>substr\<close> then keeps the
  whole path.
\<close>

fun find_last_of :: "string \<Rightarrow> string \<Rightarrow> nat option" where
  "find_last_of [] cs = None"
| "find_last_of (c # s) cs =
     (case find_last_of s cs of
        Some i \<Rightarrow> Some (Suc i)
      | None \<Rightarrow> if c \<in> set cs then Some 0 else None)"

definition path_to_filename :: "string \<Rightarrow> string" where
  "path_to_filename path =
     (case find_last_of path [CHR ''/'', CHR 0x5C] of
        None \<Rightarrow> path
      | Some i \<Rightarrow> drop (i + 1) path)"

text \<open>
  The console sink. Its optional fields are chosen when the library is compiled, by
  the macros \<open>UHD_LOG_CONSOLE_COLOR\<close>, \<open>UHD_LOG_CONSOLE_TIME\<close>, \<open>UHD_LOG_CONSOLE_THREAD\<close>
  and \<open>UHD_LOG_CONSOLE_SRC\<close>; the result is the text written to \<open>std::clog\<close>.
\<close>

record console_macros =
  UHD_LOG_CONSOLE_COLOR :: bool
  UHD_LOG_CONSOLE_TIME :: bool
  UHD_LOG_CONSOLE_THREAD :: bool
  UHD_LOG_CONSOLE_SRC :: bool

definition console_log :: "console_macros \<Rightarrow> formatters \<Rightarrow> logging_info \<Rightarrow> string" where
  "console_log m fmt r =
     (if UHD_LOG_CONSOLE_COLOR m then verbosity_color (verbosity r) else [])
     @ (if UHD_LOG_CONSOLE_TIME m then ''['' @ to_simple_string fmt (time r) @ ''] '' else [])
     @ (if UHD_LOG_CONSOLE_THREAD m then ''[0x'' @ thread_id_string fmt (thread_id r) @ ''] ''
        else [])
     @ (if UHD_LOG_CONSOLE_SRC m
        then ''['' @ path_to_filename (file r) @ '':'' @ decimal (line r) @ ''] '' else [])
     @ ''['' @ severity_name (verbosity r) @ ''] ''
     @ ''['' @ component r @ ''] ''
     @ (if UHD_LOG_CONSOLE_COLOR m then RESET_COLORS else [])
     @ message r
     @ endl"

text \<open>
  The file sink, class \<open>file_logger_backend\<close>. The state of \<open>_file_stream\<close> is whether
  it is open and what has been written through it. \<open>open_ok\<close> tells whether opening a
  path for appending succeeds; when it fails the stream throws (its exception mask
  is set), the constructor catches the failure and writes one line to \<open>std::cerr\<close>,
  with the text \<open>what\<close> of the failure. The constructor returns the backend and what
  it wrote to \<open>std::cerr\<close>. \<open>file_logger_backend_log\<close> is a call of \<open>log\<close> whose write
  succeeds; a write that fails throws, which is in \<open>builtin_sinks\<close> below.
\<close>

record file_logger_backend =
  is_open :: bool
  written :: string

definition file_logger_backend_ctor ::
  "(string \<Rightarrow> bool) \<Rightarrow> string \<Rightarrow> string \<Rightarrow> file_logger_backend \<times> string" where
  "file_logger_backend_ctor open_ok what file_path =
     (if file_path \<noteq> [] then
        (if open_ok file_path then (\<lparr>is_open = True, written = []\<rparr>, [])
         else (\<lparr>is_open = False, written = []\<rparr>, ''Error opening log file: '' @ what @ endl))
      else (\<lparr>is_open = False, written = []\<rparr>, []))"

definition file_logger_backend_log ::
  "formatters \<Rightarrow> file_logger_backend \<Rightarrow> logging_info \<Rightarrow> file_logger_backend" where
  "file_logger_backend_log fmt F r =
     (if is_open F then
        F\<lparr>written := written F
           @ to_simple_string fmt (time r) @ '',''
           @ ''0x'' @ thread_id_string fmt (thread_id r) @ '',''
           @ path_to_filename (file r) @ '':'' @ decimal (line r) @ '',''
           @ severity_name (verbosity r) @ '',''
           @ component r @ '',''
           @ message r
           @ endl\<rparr>
      else F)"

subsection \<open>Construction of the log resource\<close>

text \<open>
  The constructor reads macros of the build and variables of the environment. A
  macro is \<open>None\<close> when it is not defined and otherwise the text
  \<open>BOOST_STRINGIZE\<close> makes of it; \<open>getenv\<close> is \<open>std::getenv\<close>, \<open>None\<close> for a null
  pointer. A level is overridden by a macro that is defined and by a variable that
  is set and not empty; each override parses with the level so far as the previous
  one, and lets an exception through.
\<close>

record build_macros =
  UHD_LOG_MIN_LEVEL :: "string option"
  UHD_LOG_CONSOLE_DISABLE :: bool
  UHD_LOG_CONSOLE_LEVEL :: "string option"
  UHD_LOG_FILE_LEVEL :: "string option"
  UHD_LOG_FILE_PATH :: "string option"
  UHD_LOG_FILE :: "string option"

definition env_setting :: "(string \<Rightarrow> string option) \<Rightarrow> string \<Rightarrow> string option" where
  "env_setting getenv name =
     (case getenv name of
        None \<Rightarrow> None
      | Some [] \<Rightarrow> None
      | Some (c # cs) \<Rightarrow> Some (c # cs))"

text \<open>
  Modelled from the spec: \<open>log_rs()\<close> is the accessor of the process-wide singleton,
  which is initialized on first access (\<open>UHD_SINGLETON_FCN\<close> of
  \<open>uhd/utils/static.hpp\<close>, not among the sources), and the constructor of
  \<open>log_resource\<close> runs as that initialization. An error statement that
  \<open>_get_log_level\<close> issues there is a log statement, whose constructor calls \<open>log_rs()\<close>
  again, before the first initialization is complete: control does not come back, and
  the constructor of \<open>log_resource\<close> does not return. \<open>_get_log_level\<close> is private and
  called from this constructor only.
\<close>

definition override :: "string option \<Rightarrow> severity_level \<Rightarrow> exn + severity_level" where
  "override setting previous_level =
     (case setting of
        None \<Rightarrow> Inr previous_level
      | Some s \<Rightarrow>
          (case get_log_level s previous_level of
             Inl e \<Rightarrow> Inl e
           | Inr (level, errs) \<Rightarrow> if errs = [] then Inr level else Inl recursive_init))"

text \<open>
  What the constructor leaves behind when it returns: the resource, the file backend
  the file sink holds (when one was made), and the text written to \<open>std::cerr\<close>.
\<close>

record 'f constructed =
  resource :: "'f log_resource"
  file_backend :: "file_logger_backend option"
  cerr :: string

text \<open>
  The global level: \<open>off\<close>, overridden by the macro \<open>UHD_LOG_MIN_LEVEL\<close> and then by
  the variable \<open>UHD_LOG_LEVEL\<close>.
\<close>

definition global_level_init ::
  "build_macros \<Rightarrow> (string \<Rightarrow> string option) \<Rightarrow> exn + severity_level" where
  "global_level_init macros getenv =
     (case override (UHD_LOG_MIN_LEVEL macros) off of
        Inl e \<Rightarrow> Inl e
      | Inr g1 \<Rightarrow> override (env_setting getenv ''UHD_LOG_LEVEL'') g1)"

text \<open>
  The console section, compiled unless \<open>UHD_LOG_CONSOLE_DISABLE\<close> is defined: the level
  of the console sink is \<open>trace\<close>, overridden by the macro and then by the variable
  \<open>UHD_LOG_CONSOLE_LEVEL\<close>. \<open>None\<close> when the section is compiled out.
\<close>

definition console_level_init ::
  "build_macros \<Rightarrow> (string \<Rightarrow> string option) \<Rightarrow> exn + severity_level option" where
  "console_level_init macros getenv =
     (if UHD_LOG_CONSOLE_DISABLE macros then Inr None
      else
        (case override (UHD_LOG_CONSOLE_LEVEL macros) trace of
           Inl e \<Rightarrow> Inl e
         | Inr c1 \<Rightarrow>
             (case override (env_setting getenv ''UHD_LOG_CONSOLE_LEVEL'') c1 of
                Inl e \<Rightarrow> Inl e
              | Inr console_level \<Rightarrow> Inr (Some console_level))))"

text \<open>
  The file section: the level of the file sink is \<open>trace\<close> and the target empty; when
  both \<open>UHD_LOG_FILE_LEVEL\<close> and \<open>UHD_LOG_FILE_PATH\<close> are defined the level is overridden
  by the first and the target is what \<open>BOOST_STRINGIZE\<close> makes of \<open>UHD_LOG_FILE\<close> (a
  macro that is not defined is stringized to its own name); then the variables
  \<open>UHD_LOG_FILE_LEVEL\<close> and \<open>UHD_LOG_FILE\<close> override them. The result is the level and
  the target.
\<close>

definition file_level_init ::
  "build_macros \<Rightarrow> (string \<Rightarrow> string option) \<Rightarrow> exn + (severity_level \<times> string)" where
  "file_level_init macros getenv =
     (case (if UHD_LOG_FILE_LEVEL macros \<noteq> None \<and> UHD_LOG_FILE_PATH macros \<noteq> None
            then
              (case override (UHD_LOG_FILE_LEVEL macros) trace of
                 Inl e \<Rightarrow> Inl e
               | Inr f1 \<Rightarrow>
                   Inr (f1, case UHD_LOG_FILE macros of
                              None \<Rightarrow> ''UHD_LOG_FILE''
                            | Some s \<Rightarrow> s))
            else Inr (trace, [])) of
        Inl e \<Rightarrow> Inl e
      | Inr (f1, target1) \<Rightarrow>
          (case override (env_setting getenv ''UHD_LOG_FILE_LEVEL'') f1 of
             Inl e \<Rightarrow> Inl e
           | Inr file_level \<Rightarrow>
               Inr (file_level,
                    (case env_setting getenv ''UHD_LOG_FILE'' of
                       None \<Rightarrow> target1
                     | Some s \<Rightarrow> s))))"

text \<open>
  The constructor: the three sections in the order of the source, and the constructor
  is left without a resource when one of them is; then the members. The console sink
  and its level are entered when the console section is compiled, the file sink and
  its level when the target is not empty. \<open>open_ok\<close> and \<open>what\<close> are passed to the file
  backend. The launch of the consumer task is the caller's \<open>pop_task\<close>.
\<close>

definition log_resource_ctor ::
  "build_macros \<Rightarrow> (string \<Rightarrow> string option) \<Rightarrow> (string \<Rightarrow> bool) \<Rightarrow> string \<Rightarrow>
   exn + 'f constructed" where
  "log_resource_ctor macros getenv open_ok what =
     (case global_level_init macros getenv of
        Inl e \<Rightarrow> Inl e
      | Inr global \<Rightarrow>
     (case console_level_init macros getenv of
        Inl e \<Rightarrow> Inl e
      | Inr console \<Rightarrow>
     (case file_level_init macros getenv of
        Inl e \<Rightarrow> Inl e
      | Inr (file_level, log_file_target) \<Rightarrow>
          let rs0 = \<lparr>global_level = global, logger_level = [], exit = False, loggers = [],
                     log_queue = bounded_buffer_ctor 10\<rparr>;
              rs1 = (case console of
                       None \<Rightarrow> rs0
                     | Some console_level \<Rightarrow>
                         rs0\<lparr>logger_level := map_assign (logger_level rs0) ''console'' console_level,
                             loggers := map_assign (loggers rs0) ''console'' console_log_fn\<rparr>)
          in if log_file_target \<noteq> [] then
               (case file_logger_backend_ctor open_ok what log_file_target of
                  (F, err) \<Rightarrow>
                    Inr \<lparr>resource =
                           rs1\<lparr>logger_level := map_assign (logger_level rs1) ''file'' file_level,
                               loggers := map_assign (loggers rs1) ''file'' file_log_fn\<rparr>,
                         file_backend = Some F, cerr = err\<rparr>)
             else Inr \<lparr>resource = rs1, file_backend = None, cerr = []\<rparr>)))"

subsection \<open>What the sinks do when called\<close>



subsection \<open>A whole log statement\<close>

text \<open>
  A logging expression constructs a statement, streams its fragments into it and
  destroys it at the end of the expression: the clock value, the five arguments of
  the constructor, and the fragments.
\<close>

type_synonym statement =
  "ptime \<times> severity_level \<times> string \<times> nat \<times> string \<times> thread_id_t \<times> string list"

definition run_statement ::
  "overflow_policy \<Rightarrow> statement \<Rightarrow> 'f log_resource \<Rightarrow> 'f log_resource" where
  "run_statement pol st rs =
     (case st of (now, v, f, l, c, t, frags) \<Rightarrow>
        log_dtor pol (foldl shift (log_ctor rs now v f l c t) frags) rs)"

subsection \<open>The specification's predicates\<close>

text \<open>
  The specification's per-sink filter: a record passes the threshold of the sink
  registered under a key when no threshold is set for the key, or when its severity
  is at least the threshold.
\<close>

definition threshold_passed ::
  "(string, severity_level) std_map \<Rightarrow> string \<Rightarrow> logging_info \<Rightarrow> bool" where
  "threshold_passed lv key r =
     (case map_find lv key of
        None \<Rightarrow> True
      | Some level \<Rightarrow> ordinal level \<le> ordinal (verbosity r))"

text \<open>
  The specification's fan-out of one record: every registered sink whose threshold the
  record passes is called on it, once, in the order of the keys.
\<close>

definition passing_calls ::
  "(string, 'f log_fn_t) std_map \<Rightarrow> (string, severity_level) std_map \<Rightarrow> logging_info \<Rightarrow>
   'f sink_call list" where
  "passing_calls ls lv r =
     map (\<lambda>(key, logger_fn). (key, logger_fn, r))
       (filter (\<lambda>(key, logger_fn). threshold_passed lv key r) ls)"




text \<open>The specification's "fields comma-joined".\<close>

fun comma_join :: "string list \<Rightarrow> string" where
  "comma_join [] = []"
| "comma_join [x] = x"
| "comma_join (x # y # ys) = x @ '','' @ comma_join (y # ys)"

text \<open>
  The specification's "exactly one newline-terminated line": the text ends in a line
  feed and has no other.
\<close>

definition newline :: char where
  "newline = CHR 0x0A"

definition one_line :: "string \<Rightarrow> bool" where
  "one_line s = (s \<noteq> [] \<and> last s = newline \<and> newline \<notin> set (butlast s))"

text \<open>
  The six fields of the specification's file format, in its order: time stamp, thread
  identifier after \<open>0x\<close>, \<open>file:line\<close>, severity name, component, message.
\<close>

definition file_record_fields :: "formatters \<Rightarrow> logging_info \<Rightarrow> string list" where
  "file_record_fields fmt r =
     [to_simple_string fmt (time r),
      ''0x'' @ thread_id_string fmt (thread_id r),
      path_to_filename (file r) @ '':'' @ decimal (line r),
      severity_name (verbosity r),
      component r,
      message r]"

text \<open>
  The specification's console format: a field that its toggle omits entirely, a field in
  brackets, and the line in the order the specification gives, which ends with the
  message, then the colour reset at the end of the line.
\<close>

definition optional :: "bool \<Rightarrow> string \<Rightarrow> string" where
  "optional toggle field = (if toggle then field else [])"

definition bracketed :: "string \<Rightarrow> string" where
  "bracketed field = ''['' @ field @ ''] ''"

definition console_line_claimed :: "console_macros \<Rightarrow> formatters \<Rightarrow> logging_info \<Rightarrow> string" where
  "console_line_claimed m fmt r =
     optional (UHD_LOG_CONSOLE_COLOR m) (verbosity_color (verbosity r))
     @ optional (UHD_LOG_CONSOLE_TIME m) (bracketed (to_simple_string fmt (time r)))
     @ optional (UHD_LOG_CONSOLE_THREAD m) (bracketed (''0x'' @ thread_id_string fmt (thread_id r)))
     @ optional (UHD_LOG_CONSOLE_SRC m)
         (bracketed (path_to_filename (file r) @ '':'' @ decimal (line r)))
     @ bracketed (severity_name (verbosity r))
     @ bracketed (component r)
     @ message r
     @ optional (UHD_LOG_CONSOLE_COLOR m) RESET_COLORS
     @ endl"

subsection \<open>Concrete inputs\<close>

definition example_record :: logging_info where
  "example_record =
     \<lparr>time = 5, verbosity = info, file = ''/src/a.cpp'', line = 12, component = ''X'',
      thread_id = 1, message = ''m''\<rparr>"

definition example_resource :: "nat log_resource" where
  "example_resource =
     \<lparr>global_level = trace, logger_level = [(''console'', warning)], exit = False,
      loggers = [(''console'', console_log_fn), (''file'', file_log_fn)],
      log_queue = \<lparr>capacity = 10, buffer = [example_record]\<rparr>\<rparr>"


definition example_statements :: "statement list" where
  "example_statements =
     [(1, trace, ''a.cpp'', 3, ''X'', 1, [''t'']), (2, fatal, ''a.cpp'', 4, ''X'', 1, [''f''])]"

definition example_formatters :: formatters where
  "example_formatters =
     \<lparr>to_simple_string = (\<lambda>t. ''T'' @ decimal t), thread_id_string = (\<lambda>i. decimal i)\<rparr>"

definition example_macros :: console_macros where
  "example_macros =
     \<lparr>UHD_LOG_CONSOLE_COLOR = True, UHD_LOG_CONSOLE_TIME = True,
      UHD_LOG_CONSOLE_THREAD = True, UHD_LOG_CONSOLE_SRC = True\<rparr>"






definition default_macros :: build_macros where
  "default_macros =
     \<lparr>UHD_LOG_MIN_LEVEL = None, UHD_LOG_CONSOLE_DISABLE = False, UHD_LOG_CONSOLE_LEVEL = None,
      UHD_LOG_FILE_LEVEL = None, UHD_LOG_FILE_PATH = None, UHD_LOG_FILE = None\<rparr>"

section \<open>Properties\<close>

subsection \<open>The map operations\<close>

lemma map_find_assign:
  "map_find (map_assign m k v) k' = (if k' = k then Some v else map_find m k')"
  by (induction m) (auto simp: map_find_def)

lemma map_assign_twice: "map_assign (map_assign m k v) k w = map_assign m k w"
  by (induction m) auto

lemma map_assign_others:
  "filter (\<lambda>e. fst e \<noteq> k) (map_assign m k v) = filter (\<lambda>e. fst e \<noteq> k) m"
  by (induction m) auto

lemma keys_map_assign: "fst ` set (map_assign m k v) = insert k (fst ` set m)"
proof (induction m)
  case Nil
  show ?case by simp
next
  case (Cons e m)
  obtain k' v' where e: "e = (k', v')" by (cases e)
  show ?case
  proof (cases "k < k'")
    case True
    with e show ?thesis by simp
  next
    case False
    with e Cons show ?thesis by (cases "k = k'") (simp_all add: insert_commute)
  qed
qed

lemma std_map_inv_assign: "std_map_inv m \<Longrightarrow> std_map_inv (map_assign m k v)"
  unfolding std_map_inv_def
proof (induction m)
  case Nil
  then show ?case by simp
next
  case (Cons e m)
  obtain k' v' where e: "e = (k', v')" by (cases e)
  from Cons have IH: "sorted_wrt (<) (map fst (map_assign m k v))" by simp
  from Cons.prems e have lt: "\<forall>x\<in>fst ` set m. k' < x" by simp
  show ?case
  proof (cases "k < k'")
    case True
    with Cons.prems e lt show ?thesis by (auto intro: less_trans)
  next
    case False
    show ?thesis
    proof (cases "k = k'")
      case True
      with Cons.prems e show ?thesis by simp
    next
      case ne: False
      with False have "k' < k" by simp
      with False ne e IH lt show ?thesis by (simp add: keys_map_assign)
    qed
  qed
qed

lemma std_map_inv_distinct: "std_map_inv m \<Longrightarrow> distinct (map fst m)"
  unfolding std_map_inv_def by (simp add: strict_sorted_iff)

lemma loggers_fold_add_logger:
  "loggers (fold (\<lambda>(k, f) rs. add_logger rs k f) adds rs) =
     fold (\<lambda>(k, f) m. map_assign m k f) adds (loggers rs)"
  by (induction adds arbitrary: rs) (auto simp: add_logger_def)

lemma std_map_inv_fold_assign:
  "std_map_inv m \<Longrightarrow> std_map_inv (fold (\<lambda>(k, f) m. map_assign m k f) adds m)"
  by (induction adds arbitrary: m) (auto simp: std_map_inv_assign)

lemma keys_fold_assign:
  "fst ` set (fold (\<lambda>(k, f) m. map_assign m k f) adds m) = fst ` set m \<union> fst ` set adds"
proof (induction adds arbitrary: m)
  case Nil
  show ?case by simp
next
  case (Cons a adds)
  obtain k f where a: "a = (k, f)" by (cases a)
  have "fst ` set (fold (\<lambda>(k, f) m. map_assign m k f) adds (map_assign m k f)) =
        fst ` set (map_assign m k f) \<union> fst ` set adds"
    by (rule Cons.IH)
  with a show ?case by (simp add: keys_map_assign Un_commute insert_commute)
qed

lemma map_find_fold_assign:
  "map_find (fold (\<lambda>(k, f) m. map_assign m k f) adds m) key =
     (case map_of (rev adds) key of Some f \<Rightarrow> Some f | None \<Rightarrow> map_find m key)"
  by (induction adds arbitrary: m)
    (auto simp: map_find_assign map_add_def split: option.splits)

lemma count_key_distinct:
  "distinct (map fst m) \<Longrightarrow>
   length (filter (\<lambda>e. fst e = k) m) = (if k \<in> fst ` set m then 1 else 0)"
  by (induction m) (auto simp: image_iff)

subsection \<open>Dispatch and the consumer\<close>

text \<open>
  The calls a range-for makes are a first part of the calls the specification asks for,
  and all of them when the range-for returns.
\<close>

lemma dispatch_prefix:
  "\<exists>rest. passing_calls ls lv r = fst (dispatch sinks ls lv r w) @ rest \<and>
     (\<forall>w'. snd (dispatch sinks ls lv r w) = Inr w' \<longrightarrow> rest = [])"
proof (induction ls arbitrary: w)
  case Nil
  show ?case by (simp add: passing_calls_def)
next
  case (Cons e ls)
  obtain key logger_fn where e: "e = (key, logger_fn)" by (cases e)
  show ?case
  proof (cases "threshold_passed lv key r")
    case False
    with Cons.IH[of w] e show ?thesis
      by (auto simp: passing_calls_def threshold_passed_def split: option.splits)
  next
    case True
    then have nf: "\<not> (case map_find lv key of
            Some level \<Rightarrow> ordinal (verbosity r) < ordinal level | None \<Rightarrow> False)"
      by (auto simp: threshold_passed_def split: option.splits)
    show ?thesis
    proof (cases "sinks logger_fn r w")
      case (Inl ex)
      with e True nf show ?thesis by (simp add: passing_calls_def)
    next
      case (Inr w1)
      from Cons.IH[of w1] obtain rest
        where "passing_calls ls lv r = fst (dispatch sinks ls lv r w1) @ rest"
          and "\<forall>w'. snd (dispatch sinks ls lv r w1) = Inr w' \<longrightarrow> rest = []" by blast
      with e True nf Inr show ?thesis
        by (auto simp: passing_calls_def split: prod.splits)
    qed
  qed
qed




lemma passing_calls_keys:
  "map fst (passing_calls ls lv r) = filter (\<lambda>k. threshold_passed lv k r) (map fst ls)"
  by (induction ls) (auto simp: passing_calls_def)

lemma dispatch_keys_distinct:
  assumes "distinct (map fst ls)"
  shows "distinct (map fst (fst (dispatch sinks ls lv r w)))"
proof -
  from dispatch_prefix[of ls lv r sinks w] obtain rest
    where "passing_calls ls lv r = fst (dispatch sinks ls lv r w) @ rest" by blast
  then have "map fst (passing_calls ls lv r) =
      map fst (fst (dispatch sinks ls lv r w)) @ map fst rest" by simp
  moreover from assms have "distinct (map fst (passing_calls ls lv r))"
    by (simp add: passing_calls_keys)
  ultimately show ?thesis by simp
qed














subsection \<open>The log statement and the constructor\<close>

lemma foldl_shift_filtered: "\<not> log_it l \<Longrightarrow> foldl shift l frags = l"
  by (induction frags) (simp_all add: shift_def)

lemma foldl_shift_accepted:
  "log_it l \<Longrightarrow> foldl shift l frags = l\<lparr>ss := ss l @ concat frags\<rparr>"
  by (induction frags arbitrary: l) (simp_all add: shift_def)

lemma log_resource_ctor_shape:
  assumes "log_resource_ctor macros getenv open_ok what = Inr res"
  shows "\<exists>cl fl.
           global_level_init macros getenv = Inr (global_level (resource res)) \<and>
           log_queue (resource res) = \<lparr>capacity = 10, buffer = []\<rparr> \<and>
           \<not> exit (resource res) \<and>
           (loggers (resource res), logger_level (resource res)) \<in>
             {([], []),
              ([(''console'', console_log_fn)], [(''console'', cl)]),
              ([(''file'', file_log_fn)], [(''file'', fl)]),
              ([(''console'', console_log_fn), (''file'', file_log_fn)],
               [(''console'', cl), (''file'', fl)])}"
proof -
  from assms obtain global console file_level log_file_target
    where g: "global_level_init macros getenv = Inr global"
      and c: "console_level_init macros getenv = Inr console"
      and f: "file_level_init macros getenv = Inr (file_level, log_file_target)"
    by (auto simp: log_resource_ctor_def split: sum.splits prod.splits)
  show ?thesis
  proof (cases console)
    case None
    with assms g c f show ?thesis
      by (cases "log_file_target = []")
        (auto simp: log_resource_ctor_def Let_def bounded_buffer_ctor_def split: prod.splits)
  next
    case (Some cl)
    with assms g c f show ?thesis
      by (cases "log_file_target = []")
        (auto simp: log_resource_ctor_def Let_def bounded_buffer_ctor_def split: prod.splits)
  qed
qed

lemma log_resource_ctor_inv:
  assumes "log_resource_ctor macros getenv open_ok what = Inr res"
  shows "std_map_inv (loggers (resource res)) \<and> std_map_inv (logger_level (resource res))"
  using log_resource_ctor_shape[OF assms] by (auto simp: std_map_inv_def)

text \<open>
  A numeric level out of range in the environment: \<open>_get_log_level\<close> issues its error
  statement inside the constructor, and the constructor does not return.
\<close>

lemma log_resource_ctor_error_statement:
  "(log_resource_ctor default_macros
      (\<lambda>name. if name = ''UHD_LOG_CONSOLE_LEVEL'' then Some ''7'' else None)
      (\<lambda>path. True) ''what'' :: exn + nat constructed) = Inl recursive_init"
  by (simp add: log_resource_ctor_def global_level_init_def console_level_init_def
      default_macros_def override_def env_setting_def get_log_level_def isdigit_def stoi_def
      decimal_value_def digit_value_def INT_MAX_def level_of_int_def)

lemma run_statement_off:
  assumes "global_level rs = off" and "fst (snd st) \<noteq> off"
  shows "run_statement pol st rs = rs"
proof -
  obtain now v f l c t frags where st: "st = (now, v, f, l, c, t, frags)"
    by (cases st) auto
  with assms have "v \<noteq> off" by simp
  then have "\<not> ordinal off \<le> ordinal v" by (cases v) simp_all
  with assms(1) have "\<not> log_it (log_ctor rs now v f l c t)" by (simp add: log_ctor_def)
  from foldl_shift_filtered[OF this] this st show ?thesis
    by (simp add: run_statement_def log_dtor_def)
qed

lemma run_statements_off:
  "global_level rs = off \<Longrightarrow> \<forall>st\<in>set sts. fst (snd st) \<noteq> off \<Longrightarrow>
   fold (run_statement pol) sts rs = rs"
  by (induction sts) (simp_all add: run_statement_off)

subsection \<open>The sinks\<close>

lemma set_comma_join: "set (comma_join fs) \<subseteq> insert CHR '','' (\<Union>x\<in>set fs. set x)"
  by (induction fs rule: comma_join.induct) auto

lemma set_comma_join_fields: "x \<in> set fs \<Longrightarrow> set x \<subseteq> set (comma_join fs)"
  by (induction fs rule: comma_join.induct) auto

lemma newline_comma_join:
  "newline \<in> set (comma_join fs) \<longleftrightarrow> (\<exists>x\<in>set fs. newline \<in> set x)"
proof
  assume "newline \<in> set (comma_join fs)"
  with set_comma_join[of fs] show "\<exists>x\<in>set fs. newline \<in> set x"
    by (auto simp: newline_def)
next
  assume "\<exists>x\<in>set fs. newline \<in> set x"
  with set_comma_join_fields show "newline \<in> set (comma_join fs)" by blast
qed

lemma file_logger_backend_log_fields:
  "is_open F \<Longrightarrow>
   file_logger_backend_log fmt F r =
     F\<lparr>written := written F @ comma_join (file_record_fields fmt r) @ endl\<rparr>"
  by (simp add: file_logger_backend_log_def file_record_fields_def)

subsection \<open>Parsing a level\<close>

lemma isdigit_cases:
  "isdigit c \<longleftrightarrow> c = CHR ''0'' \<or> c = CHR ''1'' \<or> c = CHR ''2'' \<or> c = CHR ''3'' \<or> c = CHR ''4''
     \<or> c = CHR ''5'' \<or> c = CHR ''6'' \<or> c = CHR ''7'' \<or> c = CHR ''8'' \<or> c = CHR ''9''"
  by (simp add: isdigit_def)

lemma digit_value_nonneg: "isdigit c \<Longrightarrow> 0 \<le> digit_value c"
  unfolding isdigit_cases by (elim disjE) (simp_all add: digit_value_def)

lemma foldl_digits_nonneg:
  "\<forall>c\<in>set ds. isdigit c \<Longrightarrow> 0 \<le> a \<Longrightarrow>
   0 \<le> foldl (\<lambda>a c. 10 * a + digit_value c) a ds"
proof (induction ds arbitrary: a)
  case Nil
  then show ?case by simp
next
  case (Cons d ds)
  from Cons.prems have "isdigit d" by simp
  then have "0 \<le> digit_value d" by (rule digit_value_nonneg)
  with Cons.prems have a: "0 \<le> 10 * a + digit_value d" by simp
  from Cons.prems have "\<forall>c\<in>set ds. isdigit c" by simp
  from Cons.IH[OF this a] show ?case by simp
qed

lemma decimal_value_nonneg: "0 \<le> decimal_value (takeWhile isdigit s)"
  unfolding decimal_value_def
  by (rule foldl_digits_nonneg) (auto dest: set_takeWhileD)

lemma level_of_int_Some: "0 \<le> n \<Longrightarrow> n \<le> 5 \<Longrightarrow> \<exists>l. level_of_int n = Some l \<and> ordinal l = n"
proof -
  assume "0 \<le> n" "n \<le> 5"
  then have "n = 0 \<or> n = 1 \<or> n = 2 \<or> n = 3 \<or> n = 4 \<or> n = 5" by arith
  then show ?thesis by (auto simp: level_of_int_def)
qed

lemma level_of_int_None: "5 < n \<Longrightarrow> level_of_int n = None"
  by (simp add: level_of_int_def)

lemma UNIV_severity_level: "UNIV = {trace, debug, info, warning, error, fatal, off}"
proof -
  have "l \<in> {trace, debug, info, warning, error, fatal, off}" for l
    by (cases l) simp_all
  then show ?thesis by blast
qed

lemma range_severity_name:
  "range severity_name = {''trace'', ''debug'', ''info'', ''warning'', ''error'', ''fatal'', ''off''}"
  by (simp add: UNIV_severity_level)

lemma get_log_level_digit:
  assumes "s \<noteq> []" and "isdigit (hd s)" and "decimal_value (takeWhile isdigit s) \<le> INT_MAX"
  shows "get_log_level s previous =
           (case level_of_int (decimal_value (takeWhile isdigit s)) of
              Some level \<Rightarrow> Inr (level, [])
            | None \<Rightarrow> Inr (previous, [''Failed to set log level to: '' @ s]))"
proof -
  from assms(1,2) obtain c cs where s: "s = c # cs" and c: "isdigit c"
    by (cases s) auto
  then have "takeWhile isdigit s \<noteq> []" by simp
  with assms(3) have "stoi s = Inr (decimal_value (takeWhile isdigit s))"
    by (simp add: stoi_def Let_def)
  with s c show ?thesis by (simp add: get_log_level_def split: option.splits)
qed

lemma get_log_level_name:
  assumes "\<not> (s \<noteq> [] \<and> isdigit (hd s))"
  shows "get_log_level s previous =
           Inr (if s = ''trace'' then trace else if s = ''debug'' then debug
                else if s = ''info'' then info else if s = ''warning'' then warning
                else if s = ''error'' then error else if s = ''fatal'' then fatal
                else if s = ''off'' then off else previous, [])"
proof -
  from assms have "\<not> (case s of [] \<Rightarrow> False | c # _ \<Rightarrow> isdigit c)"
    by (cases s) auto
  then show ?thesis by (simp add: get_log_level_def)
qed

lemma get_log_level_severity_name: "get_log_level (severity_name l) previous = Inr (l, [])"
  by (cases l) (simp_all add: get_log_level_def isdigit_def)

text \<open>
  What \<open>_get_log_level\<close> does with a text whose leading number fits an \<open>int\<close>. A text
  whose first character is a digit is read as the decimal number at its start,
  whatever follows the digits: the level of that ordinal is returned when it is within
  trace to fatal, and otherwise one error statement is issued and the previous level
  returned. Any other text returns the enumerator it names, case-sensitively, among the
  seven names, and otherwise the previous level, with no error statement.
\<close>

lemma get_log_level_cases:
  assumes "decimal_value (takeWhile isdigit s) \<le> INT_MAX"
  shows "\<exists>level errs. get_log_level s previous = Inr (level, errs) \<and>
     (if s \<noteq> [] \<and> isdigit (hd s) then
        (if decimal_value (takeWhile isdigit s) \<le> 5
         then ordinal level = decimal_value (takeWhile isdigit s) \<and> errs = []
         else level = previous \<and> errs = [''Failed to set log level to: '' @ s])
      else
        errs = [] \<and>
        (if s \<in> range severity_name then severity_name level = s else level = previous))"
proof (cases "s \<noteq> [] \<and> isdigit (hd s)")
  case True
  then have d: "s \<noteq> []" "isdigit (hd s)" by simp_all
  note g = get_log_level_digit[OF d assms, of previous]
  show ?thesis
  proof (cases "decimal_value (takeWhile isdigit s) \<le> 5")
    case le: True
    from level_of_int_Some[OF decimal_value_nonneg le] obtain l
      where "level_of_int (decimal_value (takeWhile isdigit s)) = Some l"
        and "ordinal l = decimal_value (takeWhile isdigit s)" by blast
    with g True le show ?thesis by simp
  next
    case False
    then have "level_of_int (decimal_value (takeWhile isdigit s)) = None"
      by (simp add: level_of_int_None)
    with g True False show ?thesis by simp
  qed
next
  case False
  have "\<exists>level. get_log_level s previous = Inr (level, []) \<and>
          (if s \<in> range severity_name then severity_name level = s else level = previous)"
  proof (cases "s \<in> range severity_name")
    case True
    then obtain l where l: "severity_name l = s" by blast
    from get_log_level_severity_name[of l previous] l
    have "get_log_level s previous = Inr (l, [])" by simp
    with True l show ?thesis by simp
  next
    case nm: False
    then have ne: "s \<noteq> severity_name l" for l by blast
    from ne[of trace] ne[of debug] ne[of info] ne[of warning] ne[of error] ne[of fatal]
      ne[of off]
    have "get_log_level s previous = Inr (previous, [])"
      by (simp add: get_log_level_name[OF False])
    with nm show ?thesis by simp
  qed
  then obtain level
    where "get_log_level s previous = Inr (level, [])"
      and "if s \<in> range severity_name then severity_name level = s else level = previous"
    by blast
  then show ?thesis by (simp only: if_not_P[OF False]) blast
qed

section \<open>The claims\<close>




text \<open>
  C2: the constructor of a log statement compares the severity with the global level once
  and keeps the result; streaming into the statement does not change it, whatever the
  fragments. The destructor pushes the record, with the fragments as its message, onto
  the queue of the resource exactly when the kept result is true, whatever the state
  \<open>rs'\<close> of the resource at that time, and otherwise leaves the resource as it is.
\<close>

theorem log_statement_pushed_iff_cached_check:
  "log_it (foldl shift (log_ctor rs now v f l c t) frags) =
     (ordinal (global_level rs) \<le> ordinal v)
   \<and> log_dtor pol (foldl shift (log_ctor rs now v f l c t) frags) rs' =
     (if ordinal (global_level rs) \<le> ordinal v
      then push pol rs'
             \<lparr>time = now, verbosity = v, file = f, line = l, component = c, thread_id = t,
              message = concat frags\<rparr>
      else rs')"
proof (cases "ordinal (global_level rs) \<le> ordinal v")
  case True
  then have "log_it (log_ctor rs now v f l c t)" by (simp add: log_ctor_def)
  from foldl_shift_accepted[OF this] True show ?thesis
    by (simp add: log_ctor_def log_dtor_def)
next
  case False
  then have "\<not> log_it (log_ctor rs now v f l c t)" by (simp add: log_ctor_def)
  from foldl_shift_filtered[OF this] False show ?thesis
    by (simp add: log_ctor_def log_dtor_def)
qed

text \<open>The theorem at a concrete input.\<close>

theorem log_statement_pushed_iff_cached_check_witness:
  "log_dtor drop_newest
     (foldl shift (log_ctor (example_resource\<lparr>global_level := warning\<rparr>) 9 info ''a.cpp'' 3 ''X'' 1)
        [''ab'', ''c''])
     example_resource = example_resource
   \<and> buffer (log_queue (log_dtor drop_newest
       (foldl shift (log_ctor (example_resource\<lparr>global_level := warning\<rparr>) 9 error ''a.cpp'' 3 ''X'' 1)
          [''ab'', ''c''])
       example_resource)) =
     [example_record,
      \<lparr>time = 9, verbosity = error, file = ''a.cpp'', line = 3, component = ''X'', thread_id = 1,
       message = ''abc''\<rparr>]"
  using log_statement_pushed_iff_cached_check
          [of "example_resource\<lparr>global_level := warning\<rparr>" 9 info "''a.cpp''" 3 "''X''" 1
              "[''ab'', ''c'']" drop_newest example_resource]
        log_statement_pushed_iff_cached_check
          [of "example_resource\<lparr>global_level := warning\<rparr>" 9 error "''a.cpp''" 3 "''X''" 1
              "[''ab'', ''c'']" drop_newest example_resource]
  by (simp add: example_resource_def push_def push_with_haste_def)

text \<open>
  C4: when opening the path of the file sink fails, the constructor writes one diagnostic
  line to \<open>std::cerr\<close> and nothing to the file, the stream is not open, and every
  later call of \<open>log\<close> leaves the backend as it is: closed, with nothing written.
  Nothing is raised: the model of the constructor has no exceptional result, the
  failure being caught in the source.
\<close>

theorem file_sink_open_failure:
  assumes "file_path \<noteq> []" and "\<not> open_ok file_path"
  shows "file_logger_backend_ctor open_ok what file_path =
           (\<lparr>is_open = False, written = []\<rparr>, ''Error opening log file: '' @ what @ endl)
    \<and> foldl (file_logger_backend_log fmt) (fst (file_logger_backend_ctor open_ok what file_path)) rs
        = \<lparr>is_open = False, written = []\<rparr>"
proof -
  have "foldl (file_logger_backend_log fmt) \<lparr>is_open = False, written = []\<rparr> rs =
          \<lparr>is_open = False, written = []\<rparr>"
    by (induction rs) (simp_all add: file_logger_backend_log_def)
  with assms show ?thesis by (simp add: file_logger_backend_ctor_def)
qed

text \<open>The theorem at a concrete input.\<close>

theorem file_sink_open_failure_witness:
  "''/nonexistent/uhd.log'' \<noteq> [] \<and> \<not> (\<lambda>path. False) ''/nonexistent/uhd.log''
   \<and> file_logger_backend_ctor (\<lambda>path. False) ''No such file'' ''/nonexistent/uhd.log'' =
       (\<lparr>is_open = False, written = []\<rparr>, ''Error opening log file: No such file'' @ endl)
   \<and> foldl (file_logger_backend_log example_formatters)
        (fst (file_logger_backend_ctor (\<lambda>path. False) ''No such file'' ''/nonexistent/uhd.log''))
        [example_record, example_record] = \<lparr>is_open = False, written = []\<rparr>"
proof -
  have p: "''/nonexistent/uhd.log'' \<noteq> []" by simp
  have o: "\<not> (\<lambda>path::string. False) ''/nonexistent/uhd.log''" by simp
  from file_sink_open_failure[OF p o, of "''No such file''" example_formatters
         "[example_record, example_record]"]
  show ?thesis by (simp add: file_logger_backend_ctor_def)
qed




text \<open>
  C8: \<open>add_logger\<close> under a key that is registered replaces the sink. Registering twice
  under one key is registering once with the later sink; after any sequence of
  \<open>add_logger\<close> calls the registry is a well-formed map, every key of it has exactly
  one entry, which holds the sink registered last under the key, and a dispatch calls
  at most one sink per key. The registry the constructor builds is a well-formed map
  (\<open>log_resource_ctor_inv\<close>), which is what the theorem assumes of the start.
\<close>

theorem add_logger_one_sink_per_key:
  assumes "std_map_inv (loggers rs)"
  shows "add_logger (add_logger rs key f1) key f2 = add_logger rs key f2
    \<and> std_map_inv (loggers (fold (\<lambda>(k, f) rs. add_logger rs k f) adds rs))
    \<and> (\<forall>k. length (filter (\<lambda>e. fst e = k)
                 (loggers (fold (\<lambda>(k, f) rs. add_logger rs k f) adds rs))) =
              (if k \<in> fst ` set (loggers rs) \<union> fst ` set adds then 1 else 0))
    \<and> (\<forall>k. map_find (loggers (fold (\<lambda>(k, f) rs. add_logger rs k f) adds rs)) k =
              (case map_of (rev adds) k of
                 Some f \<Rightarrow> Some f
               | None \<Rightarrow> map_find (loggers rs) k))
    \<and> (\<forall>sinks lv r w. distinct (map fst (fst
          (dispatch sinks (loggers (fold (\<lambda>(k, f) rs. add_logger rs k f) adds rs)) lv r w))))"
proof -
  let ?m = "fold (\<lambda>(k, f) m. map_assign m k f) adds (loggers rs)"
  have inv: "std_map_inv ?m" using assms by (rule std_map_inv_fold_assign)
  then have dist: "distinct (map fst ?m)" by (rule std_map_inv_distinct)
  have twice: "add_logger (add_logger rs key f1) key f2 = add_logger rs key f2"
    by (simp add: add_logger_def map_assign_twice)
  have count: "\<forall>k. length (filter (\<lambda>e. fst e = k) ?m) =
      (if k \<in> fst ` set (loggers rs) \<union> fst ` set adds then 1 else 0)"
    using count_key_distinct[OF dist] by (simp add: keys_fold_assign)
  have once: "\<forall>sinks lv r w. distinct (map fst (fst (dispatch sinks ?m lv r w)))"
    using dist by (simp add: dispatch_keys_distinct)
  from twice inv count once show ?thesis
    by (simp add: loggers_fold_add_logger map_find_fold_assign)
qed

text \<open>The theorem at a concrete input.\<close>

theorem add_logger_one_sink_per_key_witness:
  "std_map_inv (loggers example_resource)
   \<and> loggers (fold (\<lambda>(k, f) rs. add_logger rs k f)
        [(''console'', user_fn 1), (''console'', user_fn 2)] example_resource) =
       [(''console'', user_fn 2), (''file'', file_log_fn)]
   \<and> length (filter (\<lambda>e. fst e = ''console'')
        (loggers (fold (\<lambda>(k, f) rs. add_logger rs k f)
           [(''console'', user_fn 1), (''console'', user_fn 2)] example_resource))) = 1
   \<and> map_find (loggers (fold (\<lambda>(k, f) rs. add_logger rs k f)
        [(''console'', user_fn 1), (''console'', user_fn 2)] example_resource)) ''console'' =
       Some (user_fn 2)"
proof -
  have h: "std_map_inv (loggers example_resource)"
    by (simp add: example_resource_def std_map_inv_def)
  from add_logger_one_sink_per_key
         [OF h, of "''console''" "user_fn 1" "user_fn 2"
            "[(''console'', user_fn 1), (''console'', user_fn 2)]"]
  show ?thesis using h
    by (simp add: example_resource_def add_logger_def map_find_def)
qed

text \<open>
  C9: when the macro \<open>UHD_LOG_MIN_LEVEL\<close> is not defined and the variable
  \<open>UHD_LOG_LEVEL\<close> is not set or empty, a constructor that returns leaves the global
  level at \<open>off\<close> and the queue empty; every log statement of a severity from trace to
  fatal run on that resource is discarded at construction, and any sequence of such
  statements leaves the resource as it was, so nothing is enqueued.
\<close>

theorem default_global_level_discards_all:
  assumes "UHD_LOG_MIN_LEVEL macros = None"
    and "getenv ''UHD_LOG_LEVEL'' = None \<or> getenv ''UHD_LOG_LEVEL'' = Some []"
    and "log_resource_ctor macros getenv open_ok what = Inr res"
    and "\<forall>st\<in>set sts. fst (snd st) \<noteq> off"
  shows "global_level (resource res) = off
    \<and> buffer (log_queue (resource res)) = []
    \<and> (\<forall>st\<in>set sts. case st of (now, v, f, l, c, t, frags) \<Rightarrow>
          \<not> log_it (foldl shift (log_ctor (resource res) now v f l c t) frags))
    \<and> fold (run_statement pol) sts (resource res) = resource res"
proof -
  from assms(2) have env: "env_setting getenv ''UHD_LOG_LEVEL'' = None"
    by (auto simp: env_setting_def)
  from log_resource_ctor_shape[OF assms(3)] assms(1) env
  have g: "global_level (resource res) = off" and q: "buffer (log_queue (resource res)) = []"
    by (auto simp: global_level_init_def override_def)
  have "\<not> log_it (foldl shift (log_ctor (resource res) now v f l c t) frags)"
    if "v \<noteq> off" for now v f l c t frags
  proof -
    from that have "\<not> ordinal off \<le> ordinal v" by (cases v) simp_all
    with g have "\<not> log_it (log_ctor (resource res) now v f l c t)" by (simp add: log_ctor_def)
    from foldl_shift_filtered[OF this] this show ?thesis by simp
  qed
  with assms(4) have "\<forall>st\<in>set sts. case st of (now, v, f, l, c, t, frags) \<Rightarrow>
          \<not> log_it (foldl shift (log_ctor (resource res) now v f l c t) frags)"
    by fastforce
  with g q run_statements_off[OF g assms(4)] show ?thesis by simp
qed

text \<open>The theorem at a concrete input.\<close>

theorem default_global_level_discards_all_witness:
  "(log_resource_ctor default_macros (\<lambda>name. None) (\<lambda>path. True) ''what'' :: exn + nat constructed) =
     Inr \<lparr>resource =
            \<lparr>global_level = off, logger_level = [(''console'', trace)], exit = False,
             loggers = [(''console'', console_log_fn)],
             log_queue = \<lparr>capacity = 10, buffer = []\<rparr>\<rparr>,
          file_backend = None, cerr = []\<rparr>
   \<and> fold (run_statement drop_newest) example_statements
       \<lparr>global_level = off, logger_level = [(''console'', trace)], exit = False,
        loggers = [(''console'', console_log_fn :: nat log_fn_t)],
        log_queue = \<lparr>capacity = 10, buffer = []\<rparr>\<rparr> =
       \<lparr>global_level = off, logger_level = [(''console'', trace)], exit = False,
        loggers = [(''console'', console_log_fn)],
        log_queue = \<lparr>capacity = 10, buffer = []\<rparr>\<rparr>"
proof -
  have c: "(log_resource_ctor default_macros (\<lambda>name. None) (\<lambda>path. True) ''what''
             :: exn + nat constructed) =
     Inr \<lparr>resource =
            \<lparr>global_level = off, logger_level = [(''console'', trace)], exit = False,
             loggers = [(''console'', console_log_fn)],
             log_queue = \<lparr>capacity = 10, buffer = []\<rparr>\<rparr>,
          file_backend = None, cerr = []\<rparr>"
    by (simp add: log_resource_ctor_def global_level_init_def console_level_init_def
        file_level_init_def default_macros_def override_def env_setting_def
        bounded_buffer_ctor_def)
  have m: "UHD_LOG_MIN_LEVEL default_macros = None" by (simp add: default_macros_def)
  have e: "(\<lambda>name::string. None :: string option) ''UHD_LOG_LEVEL'' = None
           \<or> (\<lambda>name::string. None :: string option) ''UHD_LOG_LEVEL'' = Some []" by simp
  have s: "\<forall>st\<in>set example_statements. fst (snd st) \<noteq> off"
    by (simp add: example_statements_def)
  from default_global_level_discards_all[OF m e c s, of drop_newest] c show ?thesis
    by simp
qed

text \<open>
  C10: \<open>set_logger_level\<close> changes the entry of its key in the per-sink thresholds and
  nothing else: not the global level, not the entries of other keys, not the registry
  of sinks, the exit flag or the queue. \<open>add_logger\<close> changes the entry of its key in
  the registry and nothing else. \<open>set_log_level\<close> changes the global level only.
\<close>

theorem configuration_calls_frame:
  "global_level (set_logger_level rs key level) = global_level rs
   \<and> loggers (set_logger_level rs key level) = loggers rs
   \<and> exit (set_logger_level rs key level) = exit rs
   \<and> log_queue (set_logger_level rs key level) = log_queue rs
   \<and> (\<forall>key'. map_find (logger_level (set_logger_level rs key level)) key' =
         (if key' = key then Some level else map_find (logger_level rs) key'))
   \<and> filter (\<lambda>e. fst e \<noteq> key) (logger_level (set_logger_level rs key level)) =
       filter (\<lambda>e. fst e \<noteq> key) (logger_level rs)
   \<and> global_level (add_logger rs key logger_fn) = global_level rs
   \<and> logger_level (add_logger rs key logger_fn) = logger_level rs
   \<and> exit (add_logger rs key logger_fn) = exit rs
   \<and> log_queue (add_logger rs key logger_fn) = log_queue rs
   \<and> (\<forall>key'. map_find (loggers (add_logger rs key logger_fn)) key' =
         (if key' = key then Some logger_fn else map_find (loggers rs) key'))
   \<and> filter (\<lambda>e. fst e \<noteq> key) (loggers (add_logger rs key logger_fn)) =
       filter (\<lambda>e. fst e \<noteq> key) (loggers rs)
   \<and> set_log_level rs level = rs\<lparr>global_level := level\<rparr>"
  by (simp add: set_logger_level_def add_logger_def set_log_level_def map_find_assign
      map_assign_others)

text \<open>The theorem at a concrete input.\<close>

theorem configuration_calls_frame_witness:
  "logger_level (set_logger_level example_resource ''file'' error) =
     [(''console'', warning), (''file'', error)]
   \<and> loggers (set_logger_level example_resource ''file'' error) = loggers example_resource
   \<and> global_level (set_logger_level example_resource ''file'' error) = trace
   \<and> loggers (add_logger example_resource ''console'' (user_fn 7)) =
       [(''console'', user_fn 7), (''file'', file_log_fn)]
   \<and> logger_level (add_logger example_resource ''console'' (user_fn 7)) =
       [(''console'', warning)]
   \<and> global_level (add_logger example_resource ''console'' (user_fn 7)) = trace"
  using configuration_calls_frame [of example_resource "''file''" error "user_fn 7"]
        configuration_calls_frame [of example_resource "''console''" error "user_fn 7"]
  by (simp add: example_resource_def set_logger_level_def add_logger_def)

text \<open>
  C3: parsing a level accepts a numeric ordinal within trace to fatal or the
  case-sensitive name of an enumerator, and for every invalid input logs an internal
  error, returns the previous level and raises nothing. The code misses this on two
  inputs. The text \<open>foo\<close> is no level: the previous level comes back, but no error
  statement is issued (the list of issued statements is empty), where the numeric
  branch of the same function issues one. The text \<open>99999999999\<close> is no level: the
  exception \<open>std::out_of_range\<close> of \<open>std::stoi\<close> is not caught and leaves the
  function. For comparison, on the text \<open>7\<close> the function issues its error statement
  and returns the previous level; inside the constructor of \<open>log_resource\<close>, its only
  caller, issuing that statement enters \<open>log_rs()\<close> again and the constructor does not
  return (\<open>log_resource_ctor_error_statement\<close>).
\<close>

theorem get_log_level_invalid_inputs:
  "get_log_level ''foo'' info = Inr (info, [])
   \<and> get_log_level ''99999999999'' info = Inl out_of_range
   \<and> get_log_level ''7'' info = Inr (info, [''Failed to set log level to: 7''])"
  by (simp add: get_log_level_def isdigit_def stoi_def decimal_value_def digit_value_def
      INT_MAX_def level_of_int_def)

text \<open>
  C6 (amended): for every record the file sink writes, the text appended to the file is
  the six fields joined by commas, in the order time stamp, thread identifier after
  \<open>0x\<close>, \<open>file:line\<close>, severity name, component, message, followed by one line feed.
  The fields are written as they are, so the text is exactly one line if and only if
  no field contains a line feed.
\<close>

theorem file_sink_line_format:
  assumes "is_open F"
  shows "file_logger_backend_log fmt F r =
           F\<lparr>written := written F @ comma_join (file_record_fields fmt r) @ endl\<rparr>
    \<and> (one_line (comma_join (file_record_fields fmt r) @ endl) \<longleftrightarrow>
         (\<forall>x\<in>set (file_record_fields fmt r). newline \<notin> set x))"
proof -
  have "one_line (body @ endl) \<longleftrightarrow> newline \<notin> set body" for body
    by (simp add: one_line_def endl_def newline_def butlast_append)
  with file_logger_backend_log_fields[OF assms] show ?thesis
    by (simp add: newline_comma_join)
qed

text \<open>The theorem at a concrete input.\<close>

theorem file_sink_line_format_witness:
  "is_open \<lparr>is_open = True, written = ''x''\<rparr>
   \<and> written (file_logger_backend_log example_formatters \<lparr>is_open = True, written = ''x''\<rparr>
        example_record) = ''xT5,0x1,a.cpp:12,info,X,m'' @ endl
   \<and> one_line (comma_join (file_record_fields example_formatters example_record) @ endl)"
proof -
  have h: "is_open \<lparr>is_open = True, written = ''x''\<rparr>" by simp
  from file_sink_line_format[OF h, of example_formatters example_record] show ?thesis
    by (simp add: file_record_fields_def example_formatters_def example_record_def
        path_to_filename_def decimal.simps digit_char_def newline_def)
qed

text \<open>
  C6 as stated fails: a message with a line feed in it is written as two lines.
\<close>

theorem file_sink_line_counterexample:
  "written (file_logger_backend_log example_formatters \<lparr>is_open = True, written = []\<rparr>
      (example_record\<lparr>message := ''a'' @ [newline] @ ''b''\<rparr>)) =
     ''T5,0x1,a.cpp:12,info,X,a'' @ [newline] @ ''b'' @ [newline]
   \<and> \<not> one_line (written (file_logger_backend_log example_formatters
        \<lparr>is_open = True, written = []\<rparr> (example_record\<lparr>message := ''a'' @ [newline] @ ''b''\<rparr>)))"
  by (simp add: file_logger_backend_log_def example_formatters_def example_record_def
      path_to_filename_def decimal.simps digit_char_def newline_def endl_def one_line_def)

text \<open>
  C7 (amended): the line the console sink writes is, in this order, the colour of the
  severity, the time stamp in brackets, the thread identifier in brackets after
  \<open>0x\<close>, \<open>file:line\<close> in brackets, each only when its toggle is on and otherwise
  omitted entirely; then the severity name and the component, each in brackets, always;
  then the colour reset when the colour toggle is on; then the message; then a line
  feed. The reset stands before the message, not after it.
\<close>

theorem console_log_format:
  "console_log m fmt r =
     optional (UHD_LOG_CONSOLE_COLOR m) (verbosity_color (verbosity r))
     @ optional (UHD_LOG_CONSOLE_TIME m) (bracketed (to_simple_string fmt (time r)))
     @ optional (UHD_LOG_CONSOLE_THREAD m) (bracketed (''0x'' @ thread_id_string fmt (thread_id r)))
     @ optional (UHD_LOG_CONSOLE_SRC m)
         (bracketed (path_to_filename (file r) @ '':'' @ decimal (line r)))
     @ bracketed (severity_name (verbosity r))
     @ bracketed (component r)
     @ optional (UHD_LOG_CONSOLE_COLOR m) RESET_COLORS
     @ message r
     @ endl"
  by (simp add: console_log_def optional_def bracketed_def)

text \<open>The theorem at a concrete input.\<close>

theorem console_log_format_witness:
  "console_log example_macros example_formatters example_record =
     GREEN @ ''[T5] [0x1] [a.cpp:12] [info] [X] '' @ RESET_COLORS @ ''m'' @ endl
   \<and> console_log
       \<lparr>UHD_LOG_CONSOLE_COLOR = False, UHD_LOG_CONSOLE_TIME = False,
        UHD_LOG_CONSOLE_THREAD = False, UHD_LOG_CONSOLE_SRC = False\<rparr>
       example_formatters example_record = ''[info] [X] m'' @ endl"
  using console_log_format [of example_macros example_formatters example_record]
        console_log_format
          [of "\<lparr>UHD_LOG_CONSOLE_COLOR = False, UHD_LOG_CONSOLE_TIME = False,
               UHD_LOG_CONSOLE_THREAD = False, UHD_LOG_CONSOLE_SRC = False\<rparr>"
              example_formatters example_record]
  by (simp add: optional_def bracketed_def example_macros_def example_formatters_def
      example_record_def path_to_filename_def decimal.simps digit_char_def)

text \<open>
  C7 as stated fails: with every toggle on, the reset is written between the component
  and the message, so the line differs from the one that ends with the message and
  then the reset.
\<close>

theorem console_log_reset_counterexample:
  "console_log example_macros example_formatters example_record =
     GREEN @ ''[T5] [0x1] [a.cpp:12] [info] [X] '' @ RESET_COLORS @ ''m'' @ endl
   \<and> console_line_claimed example_macros example_formatters example_record =
     GREEN @ ''[T5] [0x1] [a.cpp:12] [info] [X] '' @ ''m'' @ RESET_COLORS @ endl
   \<and> console_log example_macros example_formatters example_record \<noteq>
     console_line_claimed example_macros example_formatters example_record"
  by (simp add: console_log_def console_line_claimed_def optional_def bracketed_def
      example_macros_def example_formatters_def example_record_def path_to_filename_def
      decimal.simps digit_char_def GREEN_def RESET_COLORS_def ESC_def endl_def)

end
